theory Spec2Isabelle
  imports Main "HOL-Library.Word"
begin

section \<open>The room-creation page (src/pages/RoomCreationPage.tsx)\<close>

text \<open>
  The page is a React function component. Its five \<open>useState\<close> cells are the fields of
  the record \<open>state\<close>; what it reads from its collaborators (\<open>useGame\<close>,
  \<open>useSocket\<close>, \<open>window.location\<close>) is the record \<open>env\<close>; every handler and every
  effect body is a function from the environment and the state to the new state and the
  list of calls it makes on its collaborators, in program order.
\<close>

subsection \<open>JavaScript values\<close>

text \<open>
  A JavaScript string is a sequence of 16-bit code units. \<open>lit\<close> embeds the ASCII
  literals of the source.
\<close>

type_synonym code_unit = "16 word"
type_synonym jsstring = "code_unit list"

definition lit :: "string \<Rightarrow> jsstring" where
  "lit s = map of_char s"

text \<open>\<open>Boolean(s)\<close> for a string: only the empty string is falsy.\<close>

definition Boolean_str :: "jsstring \<Rightarrow> bool" where
  "Boolean_str s = (s \<noteq> [])"

text \<open>
  Truthiness of a value that is a string, \<open>null\<close> or \<open>undefined\<close>
  (\<open>gameState.roomId\<close>, \<open>errors[name]\<close>).
\<close>

definition truthy :: "jsstring option \<Rightarrow> bool" where
  "truthy v = (case v of None \<Rightarrow> False | Some s \<Rightarrow> Boolean_str s)"

text \<open>
  The numbers this page holds are results of \<open>parseInt\<close> and the integer literals of the
  initial settings: an integer or \<open>NaN\<close>. \<open>Num n\<close> stands for the mathematical integer
  \<open>n\<close>; the rounding of integers beyond \<open>2 ^ 53\<close> to a double is not represented (it
  is monotone, so it changes no comparison against the bounds used below), and minus
  zero is the same value as zero (the two compare alike).
\<close>

datatype jsnum = NaN | Num int

text \<open>The relational operators \<open><\<close> and \<open>>\<close>: every comparison with \<open>NaN\<close> is false.\<close>

fun js_lt :: "jsnum \<Rightarrow> jsnum \<Rightarrow> bool" where
  "js_lt (Num a) (Num b) = (a < b)"
| "js_lt _ _ = False"

fun js_gt :: "jsnum \<Rightarrow> jsnum \<Rightarrow> bool" where
  "js_gt (Num a) (Num b) = (a > b)"
| "js_gt _ _ = False"

subsection \<open>String.prototype.split, String.prototype.trim, parseInt\<close>

text \<open>
  The code units that \<open>trim\<close> and \<open>parseInt\<close> strip: ECMAScript's WhiteSpace and
  LineTerminator.
\<close>

definition isWhiteSpace :: "code_unit \<Rightarrow> bool" where
  "isWhiteSpace c =
     (c \<in> {0x0009, 0x000A, 0x000B, 0x000C, 0x000D, 0x0020, 0x00A0, 0x1680,
            0x2000, 0x2001, 0x2002, 0x2003, 0x2004, 0x2005, 0x2006, 0x2007,
            0x2008, 0x2009, 0x200A, 0x2028, 0x2029, 0x202F, 0x205F, 0x3000, 0xFEFF})"

definition trimStart :: "jsstring \<Rightarrow> jsstring" where
  "trimStart s = dropWhile isWhiteSpace s"

definition trim :: "jsstring \<Rightarrow> jsstring" where
  "trim s = rev (trimStart (rev (trimStart s)))"

definition comma :: code_unit where
  "comma = 0x002C"

text \<open>
  \<open>s.split(sep)\<close> for a one-unit separator: the pieces between the separators, empty
  pieces included; the empty string splits into one empty piece.
\<close>

fun split :: "code_unit \<Rightarrow> jsstring \<Rightarrow> jsstring list" where
  "split sep [] = [[]]"
| "split sep (c # cs) =
     (if c = sep then [] # split sep cs
      else (case split sep cs of
              [] \<Rightarrow> [[c]]
            | p # ps \<Rightarrow> (c # p) # ps))"

text \<open>
  \<open>text.split(',').map(word => word.trim()).filter(Boolean)\<close>, the expression that
  \<open>validateSettings\<close> and \<open>handleCreateRoom\<close> both evaluate.
\<close>

definition parseWords :: "jsstring \<Rightarrow> jsstring list" where
  "parseWords raw = filter Boolean_str (map trim (split comma raw))"

text \<open>
  \<open>parseInt(value)\<close> with no radix: leading white space is skipped, one sign is read, a
  \<open>0x\<close> or \<open>0X\<close> prefix selects radix 16, the longest prefix of digits is converted, and
  the result is \<open>NaN\<close> when there is no digit. The result here is the exact integer
  of the digits. The engine returns the double nearest to it, which is that integer
  up to \<open>2 ^ 53\<close>, may differ in the low digits beyond (ECMAScript leaves the digits
  after the 20th to the implementation) and is \<open>Infinity\<close> for digit strings too long
  for a double; all of these lie far above every bound tested by \<open>validateSettings\<close>.
\<close>

definition digitValue :: "code_unit \<Rightarrow> nat option" where
  "digitValue c =
     (if 0x30 \<le> c \<and> c \<le> 0x39 then Some (unat c - 0x30)
      else if 0x61 \<le> c \<and> c \<le> 0x7A then Some (unat c - 0x61 + 10)
      else if 0x41 \<le> c \<and> c \<le> 0x5A then Some (unat c - 0x41 + 10)
      else None)"

definition isDigit :: "nat \<Rightarrow> code_unit \<Rightarrow> bool" where
  "isDigit R c = (case digitValue c of None \<Rightarrow> False | Some d \<Rightarrow> d < R)"

definition mathInt :: "nat \<Rightarrow> jsstring \<Rightarrow> int" where
  "mathInt R Z = foldl (\<lambda>acc c. acc * int R + int (the (digitValue c))) 0 Z"

definition parseInt :: "jsstring \<Rightarrow> jsnum" where
  "parseInt inputString =
     (let S0 = trimStart inputString;
          sign = (if S0 \<noteq> [] \<and> hd S0 = 0x2D then - 1 else (1::int));
          S1 = (if S0 \<noteq> [] \<and> (hd S0 = 0x2B \<or> hd S0 = 0x2D) then tl S0 else S0);
          hex = (length S1 \<ge> 2 \<and> (take 2 S1 = [0x30, 0x78] \<or> take 2 S1 = [0x30, 0x58]));
          R = (if hex then 16 else 10);
          S2 = (if hex then drop 2 S1 else S1);
          Z = takeWhile (isDigit R) S2
      in if Z = [] then NaN else Num (sign * mathInt R Z))"

subsection \<open>Settings, errors and validation\<close>

text \<open>
  The settings object has the seven properties of its initial value. The form state
  holds \<open>customWords\<close> as the raw text; the payload of \<open>createRoom\<close> holds it as the
  list of words. The record is polymorphic in that one field.
\<close>

record 'w room_settings =
  totalPlayers :: jsnum
  drawTime :: jsnum
  totalRounds :: jsnum
  wordCount :: jsnum
  hintsCount :: jsnum
  customWordsOnly :: bool
  customWords :: 'w

type_synonym settings = "jsstring room_settings"
type_synonym payload = "jsstring list room_settings"

text \<open>
  The \<open>name\<close> attributes of the seven inputs the page renders. They are the keys of the
  settings object and of the \<open>errors\<close> object.
\<close>

datatype numfield = TotalPlayers | DrawTime | TotalRounds | WordCount | HintsCount

datatype fieldname = Number numfield | CustomWordsOnly | CustomWords

definition all_fields :: "fieldname list" where
  "all_fields = [Number TotalPlayers, Number DrawTime, Number TotalRounds,
                 Number WordCount, Number HintsCount, CustomWordsOnly, CustomWords]"

type_synonym errors = "fieldname \<rightharpoonup> jsstring"

text \<open>\<open>Object.keys(errs)\<close>, in the order of \<open>all_fields\<close>.\<close>

definition Object_keys :: "errors \<Rightarrow> fieldname list" where
  "Object_keys errs = filter (\<lambda>k. errs k \<noteq> None) all_fields"

text \<open>
  \<open>validateSettings\<close> builds \<open>newErrors\<close> by six independent tests in sequence. It
  returns the object it passes to \<open>setErrors\<close> together with its boolean result.
\<close>

definition validateSettings :: "settings \<Rightarrow> errors \<times> bool" where
  "validateSettings s =
     (let e0 = Map.empty;
          e1 = (if js_lt (totalPlayers s) (Num 2) \<or> js_gt (totalPlayers s) (Num 20)
                then e0(Number TotalPlayers \<mapsto> lit ''Players must be between 2 and 20'')
                else e0);
          e2 = (if js_lt (drawTime s) (Num 15) \<or> js_gt (drawTime s) (Num 240)
                then e1(Number DrawTime \<mapsto> lit ''Draw time must be between 15 and 240 seconds'')
                else e1);
          e3 = (if js_lt (totalRounds s) (Num 2) \<or> js_gt (totalRounds s) (Num 10)
                then e2(Number TotalRounds \<mapsto> lit ''Rounds must be between 2 and 10'')
                else e2);
          e4 = (if js_lt (wordCount s) (Num 1) \<or> js_gt (wordCount s) (Num 5)
                then e3(Number WordCount \<mapsto> lit ''Word count must be between 1 and 5'')
                else e3);
          e5 = (if js_lt (hintsCount s) (Num 0) \<or> js_gt (hintsCount s) (Num 5)
                then e4(Number HintsCount \<mapsto> lit ''Hints must be between 0 and 5'')
                else e4);
          e6 = (if customWordsOnly s
                then (let words = parseWords (customWords s)
                      in if length words < 10
                         then e5(CustomWords \<mapsto> lit ''Please enter at least 10 custom words'')
                         else e5)
                else e5)
      in (e6, length (Object_keys e6) = 0))"

subsection \<open>Environment, state and collaborator calls\<close>

text \<open>
  The player object is only tested for presence (\<open>!player\<close>); none of its properties is
  read here.
\<close>

datatype player = Player

record env =
  player :: "player option"
  connected :: bool
  roomId :: "jsstring option"
  origin :: jsstring

datatype timer_callback = ResetCopied | ResetCodeCopied

text \<open>
  The calls the page makes on its collaborators. \<open>ClearTimeout\<close> is the browser's
  cancellation call; it is part of the interface although the page has no call site
  for it.
\<close>

datatype action =
    Navigate jsstring
  | CreateRoom payload
  | ClipboardWriteText jsstring
  | SetTimeout timer_callback nat
  | ClearTimeout nat

record state =
  isCreating :: bool
  settings :: settings
  copied :: bool
  codeCopied :: bool
  errors :: errors

definition initial_settings :: settings where
  "initial_settings =
     \<lparr> totalPlayers = Num 6, drawTime = Num 60, totalRounds = Num 3, wordCount = Num 3,
       hintsCount = Num 2, customWordsOnly = False, customWords = [] \<rparr>"

definition initial_state :: state where
  "initial_state =
     \<lparr> isCreating = False, settings = initial_settings, copied = False,
       codeCopied = False, errors = Map.empty \<rparr>"

subsection \<open>Effects\<close>

text \<open>The first effect: \<open>if (!player) navigate('/')\<close>.\<close>

definition playerEffect :: "env \<Rightarrow> state \<Rightarrow> state \<times> action list" where
  "playerEffect env st =
     (if player env = None then (st, [Navigate (lit ''/'')]) else (st, []))"

text \<open>
  The second effect: \<open>if (gameState.roomId && isCreating)\<close>, reset the flag and
  navigate to the room.
\<close>

definition roomIdEffect :: "env \<Rightarrow> state \<Rightarrow> state \<times> action list" where
  "roomIdEffect env st =
     (if truthy (roomId env) \<and> isCreating st
      then (st\<lparr>isCreating := False\<rparr>, [Navigate (lit ''/room/'' @ the (roomId env))])
      else (st, []))"

text \<open>
  One pass over both effects, in the order of their declaration, as after a render in
  which the dependencies of both changed.
\<close>

definition runEffects :: "env \<Rightarrow> state \<Rightarrow> state \<times> action list" where
  "runEffects env st =
     (let (st1, a1) = playerEffect env st;
          (st2, a2) = roomIdEffect env st1
      in (st2, a1 @ a2))"

text \<open>
  The second effect run once for each of a sequence of observed environments, each run
  seeing the state the previous one left.
\<close>

fun observe :: "env list \<Rightarrow> state \<Rightarrow> state \<times> action list" where
  "observe [] st = (st, [])"
| "observe (env # envs) st =
     (let (st1, a1) = roomIdEffect env st;
          (st2, a2) = observe envs st1
      in (st2, a1 @ a2))"

subsection \<open>Handlers\<close>

text \<open>
  The change events the rendered form can deliver: the five \<open>type="number"\<close> inputs
  (name and value), the one checkbox (its \<open>checked\<close> flag) and the textarea (its value).
\<close>

datatype target =
    NumberInput numfield jsstring
  | CheckboxInput bool
  | TextareaInput jsstring

fun name :: "target \<Rightarrow> fieldname" where
  "name (NumberInput f v) = Number f"
| "name (CheckboxInput b) = CustomWordsOnly"
| "name (TextareaInput v) = CustomWords"

text \<open>\<open>{ ...prev, [name]: v }\<close> for a numeric property.\<close>

fun set_number :: "numfield \<Rightarrow> jsnum \<Rightarrow> settings \<Rightarrow> settings" where
  "set_number TotalPlayers v s = s\<lparr>totalPlayers := v\<rparr>"
| "set_number DrawTime v s = s\<lparr>drawTime := v\<rparr>"
| "set_number TotalRounds v s = s\<lparr>totalRounds := v\<rparr>"
| "set_number WordCount v s = s\<lparr>wordCount := v\<rparr>"
| "set_number HintsCount v s = s\<lparr>hintsCount := v\<rparr>"

fun get_number :: "numfield \<Rightarrow> settings \<Rightarrow> jsnum" where
  "get_number TotalPlayers s = totalPlayers s"
| "get_number DrawTime s = drawTime s"
| "get_number TotalRounds s = totalRounds s"
| "get_number WordCount s = wordCount s"
| "get_number HintsCount s = hintsCount s"

fun update_settings :: "target \<Rightarrow> settings \<Rightarrow> settings" where
  "update_settings (CheckboxInput checked) prev = prev\<lparr>customWordsOnly := checked\<rparr>"
| "update_settings (NumberInput f v) prev = set_number f (parseInt v) prev"
| "update_settings (TextareaInput v) prev = prev\<lparr>customWords := v\<rparr>"

text \<open>
  \<open>handleInputChange\<close>: store the new value under the input's name, then delete the
  entry of that name from \<open>errors\<close> if \<open>errors[name]\<close> is truthy.
\<close>

definition handleInputChange :: "target \<Rightarrow> state \<Rightarrow> state \<times> action list" where
  "handleInputChange e st =
     (let st1 = st\<lparr>settings := update_settings e (settings st)\<rparr>;
          st2 = (if truthy (errors st (name e))
                 then st1\<lparr>errors := (errors st1)(name e := None)\<rparr>
                 else st1)
      in (st2, []))"

text \<open>
  \<open>handleCreateRoom\<close>: \<open>validateSettings()\<close> runs first and stores its errors; the
  handler returns when validation failed or the socket is not connected; otherwise it
  sets the flag and calls \<open>createRoom\<close> with the settings and the parsed word list.
  The \<open>console.log\<close> calls of the page are left out.
\<close>

definition handleCreateRoom :: "env \<Rightarrow> state \<Rightarrow> state \<times> action list" where
  "handleCreateRoom env st =
     (let (newErrors, ok) = validateSettings (settings st);
          st1 = st\<lparr>errors := newErrors\<rparr>
      in if \<not> ok \<or> \<not> connected env then (st1, [])
         else
           (let st2 = st1\<lparr>isCreating := True\<rparr>;
                s = settings st;
                customWordsList = parseWords (customWords s)
            in (st2,
                [CreateRoom \<lparr> totalPlayers = totalPlayers s, drawTime = drawTime s,
                              totalRounds = totalRounds s, wordCount = wordCount s,
                              hintsCount = hintsCount s,
                              customWordsOnly = customWordsOnly s,
                              customWords = customWordsList \<rparr>])))"

text \<open>
  The create button. The component returns \<open>null\<close> without a player and renders the
  form only under \<open>connected\<close>; the button's attribute is
  \<open>disabled={isCreating || !connected}\<close>.
\<close>

definition createButtonRendered :: "env \<Rightarrow> bool" where
  "createButtonRendered env = (player env \<noteq> None \<and> connected env)"

definition createButtonDisabled :: "env \<Rightarrow> state \<Rightarrow> bool" where
  "createButtonDisabled env st = (isCreating st \<or> \<not> connected env)"

text \<open>A click reaches \<open>onClick\<close> only on a rendered button that is not disabled.\<close>

definition clickCreate :: "env \<Rightarrow> state \<Rightarrow> state \<times> action list" where
  "clickCreate env st =
     (if createButtonRendered env \<and> \<not> createButtonDisabled env st
      then handleCreateRoom env st
      else (st, []))"

text \<open>The back button of the header: \<open>onClick={() => navigate('/')}\<close>.\<close>

definition clickBack :: "state \<Rightarrow> state \<times> action list" where
  "clickBack st = (st, [Navigate (lit ''/'')])"

subsection \<open>Clipboard feedback and the browser's timers\<close>

definition copyRoomLink :: "env \<Rightarrow> state \<Rightarrow> state \<times> action list" where
  "copyRoomLink env st =
     (if truthy (roomId env)
      then (st\<lparr>copied := True\<rparr>,
            [ClipboardWriteText (origin env @ lit ''/room/'' @ the (roomId env)),
             SetTimeout ResetCopied 2000])
      else (st, []))"

definition copyRoomCode :: "env \<Rightarrow> state \<Rightarrow> state \<times> action list" where
  "copyRoomCode env st =
     (if truthy (roomId env)
      then (st\<lparr>codeCopied := True\<rparr>,
            [ClipboardWriteText (the (roomId env)), SetTimeout ResetCodeCopied 2000])
      else (st, []))"

text \<open>The callbacks given to \<open>setTimeout\<close>.\<close>

fun timerFired :: "timer_callback \<Rightarrow> state \<Rightarrow> state" where
  "timerFired ResetCopied st = st\<lparr>copied := False\<rparr>"
| "timerFired ResetCodeCopied st = st\<lparr>codeCopied := False\<rparr>"

text \<open>
  The browser's timer table: \<open>setTimeout\<close> registers the callback under a fresh
  handle, \<open>clearTimeout\<close> removes the entry of a handle, the other calls leave the
  table alone.
\<close>

record timers =
  nextHandle :: nat
  pending :: "(nat \<times> timer_callback \<times> nat) list"

fun perform :: "action \<Rightarrow> timers \<Rightarrow> timers" where
  "perform (SetTimeout cb ms) t =
     \<lparr> nextHandle = Suc (nextHandle t), pending = pending t @ [(nextHandle t, cb, ms)] \<rparr>"
| "perform (ClearTimeout h) t = t\<lparr>pending := filter (\<lambda>p. fst p \<noteq> h) (pending t)\<rparr>"
| "perform _ t = t"

definition performAll :: "action list \<Rightarrow> timers \<Rightarrow> timers" where
  "performAll acts t = foldl (\<lambda>t a. perform a t) t acts"

subsection \<open>Reading the state\<close>

text \<open>
  \<open>settings[name]\<close> as a value, and the value \<open>handleInputChange\<close> stores for an
  event: the \<open>checked\<close> flag of the checkbox, \<open>parseInt(value)\<close> of a number input,
  the text of the textarea.
\<close>

datatype jsval = JNum jsnum | JBool bool | JStr jsstring

fun get_field :: "fieldname \<Rightarrow> settings \<Rightarrow> jsval" where
  "get_field (Number f) s = JNum (get_number f s)"
| "get_field CustomWordsOnly s = JBool (customWordsOnly s)"
| "get_field CustomWords s = JStr (customWords s)"

fun stored_value :: "target \<Rightarrow> jsval" where
  "stored_value (CheckboxInput checked) = JBool checked"
| "stored_value (NumberInput f v) = JNum (parseInt v)"
| "stored_value (TextareaInput v) = JStr v"

text \<open>The calls that cancel a timer.\<close>

definition cancels :: "action \<Rightarrow> bool" where
  "cancels a = (case a of ClearTimeout h \<Rightarrow> True | _ \<Rightarrow> False)"

section \<open>Validation\<close>

subsection \<open>Auxiliary facts\<close>

lemma lit_nonempty: "s \<noteq> [] \<Longrightarrow> lit s \<noteq> []"
  by (simp add: lit_def)

lemma fieldname_cases:
  "P (Number TotalPlayers) \<Longrightarrow> P (Number DrawTime) \<Longrightarrow> P (Number TotalRounds) \<Longrightarrow>
   P (Number WordCount) \<Longrightarrow> P (Number HintsCount) \<Longrightarrow> P CustomWordsOnly \<Longrightarrow>
   P CustomWords \<Longrightarrow> P k"
proof (cases k)
  case (Number f)
  assume "P (Number TotalPlayers)" "P (Number DrawTime)" "P (Number TotalRounds)"
    "P (Number WordCount)" "P (Number HintsCount)"
  then show ?thesis using Number by (cases f) simp_all
qed simp_all

lemma Object_keys_empty: "(length (Object_keys errs) = 0) = (errs = Map.empty)"
proof
  assume "length (Object_keys errs) = 0"
  then have a: "\<forall>k\<in>set all_fields. errs k = None"
    by (simp add: Object_keys_def filter_empty_conv)
  show "errs = Map.empty"
  proof
    fix k show "errs k = None"
      using a by (rule_tac k = k in fieldname_cases) (simp_all add: all_fields_def)
  qed
next
  assume "errs = Map.empty"
  then show "length (Object_keys errs) = 0"
    by (simp add: Object_keys_def)
qed

lemma validate_TotalPlayers:
  "fst (validateSettings s) (Number TotalPlayers) =
     (if js_lt (totalPlayers s) (Num 2) \<or> js_gt (totalPlayers s) (Num 20)
      then Some (lit ''Players must be between 2 and 20'') else None)"
  by (simp add: validateSettings_def Let_def if_distribR cong del: if_weak_cong split del: if_split)

lemma validate_DrawTime:
  "fst (validateSettings s) (Number DrawTime) =
     (if js_lt (drawTime s) (Num 15) \<or> js_gt (drawTime s) (Num 240)
      then Some (lit ''Draw time must be between 15 and 240 seconds'') else None)"
  by (simp add: validateSettings_def Let_def if_distribR cong del: if_weak_cong split del: if_split)

lemma validate_TotalRounds:
  "fst (validateSettings s) (Number TotalRounds) =
     (if js_lt (totalRounds s) (Num 2) \<or> js_gt (totalRounds s) (Num 10)
      then Some (lit ''Rounds must be between 2 and 10'') else None)"
  by (simp add: validateSettings_def Let_def if_distribR cong del: if_weak_cong split del: if_split)

lemma validate_WordCount:
  "fst (validateSettings s) (Number WordCount) =
     (if js_lt (wordCount s) (Num 1) \<or> js_gt (wordCount s) (Num 5)
      then Some (lit ''Word count must be between 1 and 5'') else None)"
  by (simp add: validateSettings_def Let_def if_distribR cong del: if_weak_cong split del: if_split)

lemma validate_HintsCount:
  "fst (validateSettings s) (Number HintsCount) =
     (if js_lt (hintsCount s) (Num 0) \<or> js_gt (hintsCount s) (Num 5)
      then Some (lit ''Hints must be between 0 and 5'') else None)"
  by (simp add: validateSettings_def Let_def if_distribR cong del: if_weak_cong split del: if_split)

lemma validate_CustomWords:
  "fst (validateSettings s) CustomWords =
     (if customWordsOnly s \<and> length (parseWords (customWords s)) < 10
      then Some (lit ''Please enter at least 10 custom words'') else None)"
  by (simp add: validateSettings_def Let_def if_distribR cong del: if_weak_cong split del: if_split)
    simp

lemma validate_CustomWordsOnly: "fst (validateSettings s) CustomWordsOnly = None"
  by (simp add: validateSettings_def Let_def if_distribR cong del: if_weak_cong split del: if_split)

lemma validate_result: "snd (validateSettings s) = (fst (validateSettings s) = Map.empty)"
  by (simp add: validateSettings_def Let_def Object_keys_empty del: length_0_conv)

lemmas validate_entries = validate_TotalPlayers validate_DrawTime validate_TotalRounds
  validate_WordCount validate_HintsCount validate_CustomWords validate_CustomWordsOnly

lemma validate_empty_iff:
  "(fst (validateSettings s) = Map.empty) =
     (\<not> (js_lt (totalPlayers s) (Num 2) \<or> js_gt (totalPlayers s) (Num 20)) \<and>
      \<not> (js_lt (drawTime s) (Num 15) \<or> js_gt (drawTime s) (Num 240)) \<and>
      \<not> (js_lt (totalRounds s) (Num 2) \<or> js_gt (totalRounds s) (Num 10)) \<and>
      \<not> (js_lt (wordCount s) (Num 1) \<or> js_gt (wordCount s) (Num 5)) \<and>
      \<not> (js_lt (hintsCount s) (Num 0) \<or> js_gt (hintsCount s) (Num 5)) \<and>
      \<not> (customWordsOnly s \<and> length (parseWords (customWords s)) < 10))"
  (is "?L = ?R")
proof
  assume l: ?L
  have "\<forall>k. fst (validateSettings s) k = None" using l by simp
  then have "fst (validateSettings s) (Number TotalPlayers) = None"
    "fst (validateSettings s) (Number DrawTime) = None"
    "fst (validateSettings s) (Number TotalRounds) = None"
    "fst (validateSettings s) (Number WordCount) = None"
    "fst (validateSettings s) (Number HintsCount) = None"
    "fst (validateSettings s) CustomWords = None"
    by blast+
  then show ?R
    unfolding validate_entries by (simp_all split: if_splits)
next
  assume r: ?R
  show ?L
  proof
    fix k show "fst (validateSettings s) k = None"
      using r by (rule_tac k = k in fieldname_cases) (simp_all add: validate_entries)
  qed
qed


lemma validate_initial: "validateSettings initial_settings = (Map.empty, True)"
proof -
  have "fst (validateSettings initial_settings) = Map.empty"
    unfolding validate_empty_iff by (simp add: initial_settings_def)
  then show ?thesis
    using validate_result [of initial_settings] by (simp add: prod_eq_iff)
qed

lemma parseWords_Nil: "parseWords [] = []"
  by (simp add: parseWords_def trim_def trimStart_def Boolean_str_def)

subsection \<open>The initial state\<close>

text \<open>
  Claim C10. The session starts well-formed: \<open>isCreating\<close> is false, the error
  mapping is empty, both clipboard flags are false, the settings are the defaults
  (6 players, 60 seconds, 3 rounds, 3 words, 2 hints, custom words off and empty), and
  these defaults pass every validation rule: \<open>validateSettings\<close> returns the empty
  mapping and true. So a room can be created without any edit: on a connected socket the
  handler sets the flag and sends the defaults with an empty word list, and with a
  player present the create button is enabled and reaches the handler.
\<close>

theorem initial_state_well_formed:
  "isCreating initial_state = False \<and>
   errors initial_state = Map.empty \<and>
   copied initial_state = False \<and>
   codeCopied initial_state = False \<and>
   settings initial_state =
     \<lparr> totalPlayers = Num 6, drawTime = Num 60, totalRounds = Num 3, wordCount = Num 3,
       hintsCount = Num 2, customWordsOnly = False, customWords = [] \<rparr> \<and>
   validateSettings (settings initial_state) = (Map.empty, True) \<and>
   handleCreateRoom \<lparr> player = p, connected = True, roomId = r, origin = orig \<rparr>
       initial_state =
     (initial_state\<lparr>isCreating := True\<rparr>,
      [CreateRoom \<lparr> totalPlayers = Num 6, drawTime = Num 60, totalRounds = Num 3,
                    wordCount = Num 3, hintsCount = Num 2, customWordsOnly = False,
                    customWords = [] \<rparr>]) \<and>
   clickCreate \<lparr> player = Some Player, connected = True, roomId = r, origin = orig \<rparr>
       initial_state =
     handleCreateRoom \<lparr> player = Some Player, connected = True, roomId = r, origin = orig \<rparr>
       initial_state"
proof -
  have v: "validateSettings (settings initial_state) = (Map.empty, True)"
    by (simp add: initial_state_def validate_initial)
  have h: "handleCreateRoom \<lparr> player = p, connected = True, roomId = r, origin = orig \<rparr>
       initial_state =
     (initial_state\<lparr>isCreating := True\<rparr>,
      [CreateRoom \<lparr> totalPlayers = Num 6, drawTime = Num 60, totalRounds = Num 3,
                    wordCount = Num 3, hintsCount = Num 2, customWordsOnly = False,
                    customWords = [] \<rparr>])" for p
    unfolding handleCreateRoom_def v
    by (simp add: initial_state_def initial_settings_def parseWords_Nil)
  have c: "clickCreate \<lparr> player = Some Player, connected = True, roomId = r, origin = orig \<rparr>
       initial_state =
     handleCreateRoom \<lparr> player = Some Player, connected = True, roomId = r, origin = orig \<rparr>
       initial_state"
    by (simp add: clickCreate_def createButtonRendered_def createButtonDisabled_def
      initial_state_def)
  show ?thesis
    using v h c by (simp add: initial_state_def initial_settings_def)
qed

text \<open>The statement at a concrete environment.\<close>

theorem initial_state_well_formed_witness:
  "validateSettings (settings initial_state) = (Map.empty, True) \<and>
   snd (handleCreateRoom \<lparr> player = Some Player, connected = True, roomId = None,
                            origin = lit ''http://localhost'' \<rparr> initial_state) =
     [CreateRoom \<lparr> totalPlayers = Num 6, drawTime = Num 60, totalRounds = Num 3,
                   wordCount = Num 3, hintsCount = Num 2, customWordsOnly = False,
                   customWords = [] \<rparr>]"
proof -
  note t = initial_state_well_formed [of "Some Player" None "lit ''http://localhost''"]
  from t have a: "validateSettings (settings initial_state) = (Map.empty, True)"
    by blast
  from t have b:
    "handleCreateRoom \<lparr> player = Some Player, connected = True, roomId = None,
                         origin = lit ''http://localhost'' \<rparr> initial_state =
     (initial_state\<lparr>isCreating := True\<rparr>,
      [CreateRoom \<lparr> totalPlayers = Num 6, drawTime = Num 60, totalRounds = Num 3,
                    wordCount = Num 3, hintsCount = Num 2, customWordsOnly = False,
                    customWords = [] \<rparr>])"
    by blast
  show ?thesis
    unfolding a b by simp
qed

subsection \<open>Range rules\<close>

lemma validate_frame:
  "k \<noteq> Number f \<Longrightarrow>
   fst (validateSettings (set_number f v s)) k = fst (validateSettings s) k"
proof (cases k)
  case (Number g)
  assume "k \<noteq> Number f"
  with Number have "g \<noteq> f" by simp
  then show ?thesis
    unfolding Number by (cases f; cases g) (simp_all add: validate_entries)
next
  case CustomWordsOnly
  then show ?thesis by (simp add: validate_entries)
next
  case CustomWords
  then show ?thesis by (cases f) (simp_all add: validate_entries)
qed

text \<open>
  Claim C3. For integer values \<open>a\<close>, \<open>b\<close>, \<open>c\<close>, \<open>d\<close>, \<open>e\<close> of the five numeric
  fields, \<open>validateSettings\<close> reports an error on a numeric field exactly when its
  value is outside its inclusive range (players 2 to 20, draw time 15 to 240, rounds 2
  to 10, words 1 to 5, hints 0 to 5), so the bounds themselves are accepted and the
  values one below and one above are rejected; it reports an error on
  \<open>customWords\<close> exactly when \<open>customWordsOnly\<close> is set and fewer than 10 words are
  parsed; it never reports one on \<open>customWordsOnly\<close>. The rules are independent: for
  any settings \<open>s0\<close>, storing any value in one numeric field changes the error entry
  of no other field. The boolean result is true exactly when the error mapping is
  empty.
\<close>

theorem validateSettings_ranges:
  "(let s = \<lparr> totalPlayers = Num a, drawTime = Num b, totalRounds = Num c,
               wordCount = Num d, hintsCount = Num e, customWordsOnly = only,
               customWords = raw \<rparr>;
        errs = fst (validateSettings s)
    in (errs (Number TotalPlayers) \<noteq> None) = (a \<notin> {2..20}) \<and>
       (errs (Number DrawTime) \<noteq> None) = (b \<notin> {15..240}) \<and>
       (errs (Number TotalRounds) \<noteq> None) = (c \<notin> {2..10}) \<and>
       (errs (Number WordCount) \<noteq> None) = (d \<notin> {1..5}) \<and>
       (errs (Number HintsCount) \<noteq> None) = (e \<notin> {0..5}) \<and>
       (errs CustomWords \<noteq> None) = (only \<and> length (parseWords raw) < 10) \<and>
       errs CustomWordsOnly = None \<and>
       snd (validateSettings s) = (errs = Map.empty)) \<and>
   (\<forall>f v k. k \<noteq> Number f \<longrightarrow>
      fst (validateSettings (set_number f v s0)) k = fst (validateSettings s0) k) \<and>
   snd (validateSettings s0) = (fst (validateSettings s0) = Map.empty)"
proof -
  define s where "s = \<lparr> totalPlayers = Num a, drawTime = Num b, totalRounds = Num c,
               wordCount = Num d, hintsCount = Num e, customWordsOnly = only,
               customWords = raw \<rparr>"
  have sel: "totalPlayers s = Num a" "drawTime s = Num b" "totalRounds s = Num c"
    "wordCount s = Num d" "hintsCount s = Num e" "customWordsOnly s = only"
    "customWords s = raw"
    by (simp_all add: s_def)
  have 1: "(fst (validateSettings s) (Number TotalPlayers) \<noteq> None) = (a \<notin> {2..20})"
    unfolding validate_TotalPlayers sel by auto
  have 2: "(fst (validateSettings s) (Number DrawTime) \<noteq> None) = (b \<notin> {15..240})"
    unfolding validate_DrawTime sel by auto
  have 3: "(fst (validateSettings s) (Number TotalRounds) \<noteq> None) = (c \<notin> {2..10})"
    unfolding validate_TotalRounds sel by auto
  have 4: "(fst (validateSettings s) (Number WordCount) \<noteq> None) = (d \<notin> {1..5})"
    unfolding validate_WordCount sel by auto
  have 5: "(fst (validateSettings s) (Number HintsCount) \<noteq> None) = (e \<notin> {0..5})"
    unfolding validate_HintsCount sel by auto
  have 6: "(fst (validateSettings s) CustomWords \<noteq> None) =
             (only \<and> length (parseWords raw) < 10)"
    unfolding validate_CustomWords sel by simp
  note 7 = validate_CustomWordsOnly [of s] and 8 = validate_result [of s]
  have 9: "\<forall>f v k. k \<noteq> Number f \<longrightarrow>
      fst (validateSettings (set_number f v s0)) k = fst (validateSettings s0) k"
    by (simp add: validate_frame)
  show ?thesis
    unfolding Let_def s_def [symmetric]
    using 1 2 3 4 5 6 7 8 9 validate_result [of s0] by blast
qed

text \<open>
  At the bounds 2, 240 and 0, at 1 round (one below), 6 words (one above) and nine
  custom words.
\<close>

theorem validateSettings_ranges_witness:
  "(let errs = fst (validateSettings
                      \<lparr> totalPlayers = Num 2, drawTime = Num 240, totalRounds = Num 1,
                        wordCount = Num 6, hintsCount = Num 0, customWordsOnly = True,
                        customWords = lit ''a,b,c,d,e,f,g,h,i'' \<rparr>)
    in errs (Number TotalPlayers) = None \<and> errs (Number DrawTime) = None \<and>
       errs (Number TotalRounds) \<noteq> None \<and> errs (Number WordCount) \<noteq> None \<and>
       errs (Number HintsCount) = None \<and> errs CustomWords \<noteq> None) \<and>
   fst (validateSettings (set_number DrawTime (Num 1000) initial_settings))
       (Number TotalPlayers) =
     fst (validateSettings initial_settings) (Number TotalPlayers)"
proof -
  have w: "length (parseWords (lit ''a,b,c,d,e,f,g,h,i'')) < 10"
    by code_simp
  note t = validateSettings_ranges [of 2 240 1 6 0 True "lit ''a,b,c,d,e,f,g,h,i''"
      initial_settings]
  from t have f: "fst (validateSettings (set_number DrawTime (Num 1000) initial_settings))
       (Number TotalPlayers) =
     fst (validateSettings initial_settings) (Number TotalPlayers)"
    by (meson fieldname.inject numfield.distinct)
  from t w f show ?thesis
    unfolding Let_def by simp
qed

subsection \<open>Numeric input that is not a number\<close>

lemma parseInt_Nil: "parseInt [] = NaN"
  by (simp add: parseInt_def trimStart_def)

lemma validate_NaN:
  "fst (validateSettings (set_number f NaN s)) (Number f) = None"
  by (cases f) (simp_all add: validate_entries)

text \<open>
  Claim C2 says that a numeric field holding \<open>NaN\<close> fails validation and is never
  dispatched. The code does the opposite: both comparisons of each range test are
  false on \<open>NaN\<close>, so a numeric field that holds \<open>NaN\<close> never gets an error entry.
  \<open>parseInt\<close> yields \<open>NaN\<close> on the empty string and on \<open>abc\<close>. After the
  players input is cleared in the initial form, \<open>handleCreateRoom\<close> on a connected
  socket sets the flag and calls \<open>createRoom\<close> with \<open>totalPlayers = NaN\<close>.
\<close>

theorem NaN_passes_validation:
  "fst (validateSettings (set_number f NaN s)) (Number f) = None \<and>
   parseInt [] = NaN \<and>
   parseInt (lit ''abc'') = NaN \<and>
   (let st = fst (handleInputChange (NumberInput TotalPlayers []) initial_state);
        env = \<lparr> player = Some Player, connected = True, roomId = None,
                origin = lit ''http://localhost'' \<rparr>
    in totalPlayers (settings st) = NaN \<and>
       handleCreateRoom env st =
         (st\<lparr>isCreating := True\<rparr>,
          [CreateRoom \<lparr> totalPlayers = NaN, drawTime = Num 60, totalRounds = Num 3,
                        wordCount = Num 3, hintsCount = Num 2, customWordsOnly = False,
                        customWords = [] \<rparr>]))"
proof -
  define s1 where "s1 = set_number TotalPlayers NaN initial_settings"
  define st where "st = initial_state\<lparr>settings := s1\<rparr>"
  have st: "fst (handleInputChange (NumberInput TotalPlayers []) initial_state) = st"
    by (simp add: handleInputChange_def st_def s1_def parseInt_Nil truthy_def
        initial_state_def)
  have "fst (validateSettings s1) = Map.empty"
    unfolding validate_empty_iff by (simp add: s1_def initial_settings_def)
  then have v: "validateSettings (settings st) = (Map.empty, True)"
    using validate_result [of s1] by (simp add: prod_eq_iff st_def)
  have abc: "parseInt (lit ''abc'') = NaN"
    by code_simp
  have h: "handleCreateRoom \<lparr> player = Some Player, connected = True, roomId = None,
                origin = lit ''http://localhost'' \<rparr> st =
         (st\<lparr>isCreating := True\<rparr>,
          [CreateRoom \<lparr> totalPlayers = NaN, drawTime = Num 60, totalRounds = Num 3,
                        wordCount = Num 3, hintsCount = Num 2, customWordsOnly = False,
                        customWords = [] \<rparr>])"
    unfolding handleCreateRoom_def v
    by (simp add: st_def s1_def initial_state_def initial_settings_def parseWords_Nil)
  have tp: "totalPlayers (settings st) = NaN"
    by (simp add: st_def s1_def)
  show ?thesis
    unfolding Let_def st using validate_NaN parseInt_Nil abc tp h by simp
qed

text \<open>The first part at the draw-time field of the initial settings.\<close>

theorem NaN_passes_validation_witness:
  "fst (validateSettings (set_number DrawTime NaN initial_settings)) (Number DrawTime) = None"
  using NaN_passes_validation [of DrawTime initial_settings] by blast

subsection \<open>Creating while disconnected\<close>

text \<open>
  Claim C5. The create action of the page is a click on the create button, the only
  place \<open>handleCreateRoom\<close> is attached to. For every state, while \<open>connected\<close> is
  false the button is not rendered (and its \<open>disabled\<close> predicate holds), so triggering
  the action sends no creation request and changes no state at all: \<open>isCreating\<close>,
  the settings, the errors and both clipboard flags are as before. The handler has its
  own \<open>!connected\<close> test besides: without a connection it makes no call and leaves
  \<open>isCreating\<close> as it was.
\<close>

theorem create_while_disconnected:
  "\<not> connected env \<Longrightarrow>
   clickCreate env st = (st, []) \<and>
   \<not> createButtonRendered env \<and>
   createButtonDisabled env st \<and>
   snd (handleCreateRoom env st) = [] \<and>
   isCreating (fst (handleCreateRoom env st)) = isCreating st"
  by (simp add: handleCreateRoom_def clickCreate_def createButtonRendered_def
      createButtonDisabled_def split: prod.splits)

text \<open>
  Without a connection, with a player present and 1 player entered (an invalid
  setting with no error shown yet): the click leaves the state as it is.
\<close>

theorem create_while_disconnected_witness:
  "(let env = \<lparr> player = Some Player, connected = False, roomId = None,
                origin = lit ''http://localhost'' \<rparr>;
        st = initial_state\<lparr>settings := initial_settings\<lparr>totalPlayers := Num 1\<rparr>\<rparr>
    in clickCreate env st = (st, []) \<and>
       errors (fst (clickCreate env st)) = Map.empty \<and>
       snd (handleCreateRoom env st) = [] \<and>
       isCreating (fst (handleCreateRoom env st)) = False)"
proof -
  define env where "env = \<lparr> player = Some Player, connected = False, roomId = None,
                origin = lit ''http://localhost'' \<rparr>"
  define st where
    "st = initial_state\<lparr>settings := initial_settings\<lparr>totalPlayers := Num 1\<rparr>\<rparr>"
  have d: "\<not> connected env"
    by (simp add: env_def)
  note t = create_while_disconnected [OF d, of st]
  from t have a: "clickCreate env st = (st, [])"
    by blast
  from t have b: "snd (handleCreateRoom env st) = []"
    by blast
  from t have c: "isCreating (fst (handleCreateRoom env st)) = isCreating st"
    by blast
  have e: "errors st = Map.empty" "isCreating st = False"
    by (simp_all add: st_def initial_state_def)
  show ?thesis
    unfolding Let_def env_def [symmetric] st_def [symmetric]
    using a b c e by simp
qed

section \<open>The word list\<close>

lemma split_not_Nil: "split sep s \<noteq> []"
  by (induction s) (auto split: list.splits)

lemma split_append: "split sep (x @ sep # y) = split sep x @ split sep y"
proof (induction x)
  case Nil
  show ?case by simp
next
  case (Cons c x)
  obtain p ps where p: "split sep x = p # ps"
    using split_not_Nil [of sep x] by (cases "split sep x") auto
  show ?case
    using Cons p by simp
qed

lemma split_no_sep: "sep \<notin> set w \<Longrightarrow> split sep w = [w]"
  by (induction w) auto

lemma split_pieces: "p \<in> set (split sep s) \<Longrightarrow> sep \<notin> set p"
proof (induction s arbitrary: p)
  case Nil
  then show ?case by simp
next
  case (Cons c s)
  obtain q qs where q: "split sep s = q # qs"
    using split_not_Nil [of sep s] by (cases "split sep s") auto
  show ?case
  proof (cases "c = sep")
    case True
    with Cons show ?thesis by auto
  next
    case False
    with Cons.prems q have "p = c # q \<or> p \<in> set qs" by simp
    then show ?thesis
      using Cons.IH [of q] Cons.IH [of p] q False by auto
  qed
qed

lemma set_trim: "set (trim w) \<subseteq> set w"
proof
  fix x assume "x \<in> set (trim w)"
  then have "x \<in> set (dropWhile isWhiteSpace (rev (dropWhile isWhiteSpace w)))"
    by (simp add: trim_def trimStart_def)
  then have "x \<in> set (rev (dropWhile isWhiteSpace w))"
    by (rule set_dropWhileD)
  then have "x \<in> set (dropWhile isWhiteSpace w)"
    by simp
  then show "x \<in> set w"
    by (rule set_dropWhileD)
qed

lemma trim_hd: "trim w \<noteq> [] \<Longrightarrow> \<not> isWhiteSpace (hd (trim w))"
proof -
  assume n: "trim w \<noteq> []"
  define u where "u = dropWhile isWhiteSpace w"
  define v where "v = dropWhile isWhiteSpace (rev u)"
  have t: "trim w = rev v" by (simp add: trim_def trimStart_def u_def v_def)
  with n have vn: "v \<noteq> []" by simp
  then have "rev u \<noteq> []" unfolding v_def by auto
  then have un: "u \<noteq> []" by simp
  have "\<exists>r. rev u = r @ v"
    unfolding v_def by (metis takeWhile_dropWhile_id)
  then obtain r where "rev u = r @ v" ..
  then have "u = rev v @ rev r" by (metis rev_append rev_rev_ident)
  with vn have "hd u = hd (rev v)" by simp
  moreover have "\<not> isWhiteSpace (hd u)"
    using un unfolding u_def by (rule hd_dropWhile)
  ultimately show ?thesis using t by simp
qed

lemma trim_last: "trim w \<noteq> [] \<Longrightarrow> \<not> isWhiteSpace (last (trim w))"
proof -
  assume n: "trim w \<noteq> []"
  define v where "v = dropWhile isWhiteSpace (rev (dropWhile isWhiteSpace w))"
  have t: "trim w = rev v" by (simp add: trim_def trimStart_def v_def)
  with n have vn: "v \<noteq> []" by simp
  then have "\<not> isWhiteSpace (hd v)"
    unfolding v_def by (rule hd_dropWhile)
  then show ?thesis using t by (simp add: last_rev)
qed

lemma parseWords_append:
  "parseWords (x @ comma # y) = parseWords x @ parseWords y"
  by (simp add: parseWords_def split_append)

lemma parseWords_single:
  "comma \<notin> set w \<Longrightarrow> parseWords w = (if trim w = [] then [] else [trim w])"
  by (simp add: parseWords_def split_no_sep Boolean_str_def)

lemma parseWords_tokens:
  assumes "t \<in> set (parseWords raw)"
  shows "t \<noteq> [] \<and> comma \<notin> set t \<and> \<not> isWhiteSpace (hd t) \<and> \<not> isWhiteSpace (last t)"
proof -
  from assms obtain p where p: "p \<in> set (split comma raw)" and t: "t = trim p"
    and n: "t \<noteq> []"
    by (auto simp: parseWords_def Boolean_str_def)
  from p have "comma \<notin> set p" by (rule split_pieces)
  then have "comma \<notin> set t" using set_trim [of p] t by auto
  then show ?thesis using n trim_hd [of p] trim_last [of p] t by simp
qed

lemma createRoom_payload:
  "snd (handleCreateRoom env st) =
     (if snd (validateSettings (settings st)) \<and> connected env
      then [CreateRoom \<lparr> totalPlayers = totalPlayers (settings st),
                         drawTime = drawTime (settings st),
                         totalRounds = totalRounds (settings st),
                         wordCount = wordCount (settings st),
                         hintsCount = hintsCount (settings st),
                         customWordsOnly = customWordsOnly (settings st),
                         customWords = parseWords (customWords (settings st)) \<rparr>]
      else [])"
  by (simp add: handleCreateRoom_def Let_def split: prod.splits)

lemma trim_decomp:
  "\<exists>pre suf. w = pre @ trim w @ suf \<and>
     (\<forall>c\<in>set pre. isWhiteSpace c) \<and> (\<forall>c\<in>set suf. isWhiteSpace c)"
proof -
  define u where "u = dropWhile isWhiteSpace w"
  define v where "v = dropWhile isWhiteSpace (rev u)"
  define pre where "pre = takeWhile isWhiteSpace w"
  define suf where "suf = rev (takeWhile isWhiteSpace (rev u))"
  have t: "trim w = rev v"
    by (simp add: trim_def trimStart_def u_def v_def)
  have "rev u = rev suf @ v"
    by (simp add: suf_def v_def)
  then have "rev (rev u) = rev (rev suf @ v)"
    by (rule arg_cong)
  then have u: "u = rev v @ suf"
    by simp
  have "w = pre @ u"
    by (simp add: pre_def u_def)
  with u t have "w = pre @ trim w @ suf"
    by simp
  moreover have "\<forall>c\<in>set pre. isWhiteSpace c"
    unfolding pre_def by (auto dest: set_takeWhileD)
  moreover have "\<forall>c\<in>set suf. isWhiteSpace c"
    unfolding suf_def by (auto dest: set_takeWhileD)
  ultimately show ?thesis by blast
qed

text \<open>
  Claim C4. For every raw text the parse splits on comma, trims each piece, drops the
  empty ones, keeps the order and removes no duplicate. Splitting and order: the words
  of \<open>x,y\<close> are the words of \<open>x\<close> followed by the words of \<open>y\<close>. Trimming and
  dropping: a text \<open>w\<close> without comma yields its trimmed form as the only word, or
  no word when that is empty, where the trimmed form is \<open>w\<close> without a prefix and a
  suffix of white space. Hence every word of the result is non-empty, has no comma and
  neither starts nor ends with white space. \<open>"a, b ,c,,d"\<close> parses to the four words
  a, b, c, d, and a word entered twice appears twice. When \<open>handleCreateRoom\<close> calls
  \<open>createRoom\<close>, the \<open>customWords\<close> of its payload is this parse of the settings'
  text and the other six fields are the settings' own.
\<close>

theorem parseWords_spec:
  "parseWords (x @ comma # y) = parseWords x @ parseWords y \<and>
   (comma \<notin> set w \<longrightarrow> parseWords w = (if trim w = [] then [] else [trim w])) \<and>
   (\<exists>pre suf. w = pre @ trim w @ suf \<and>
      (\<forall>c\<in>set pre. isWhiteSpace c) \<and> (\<forall>c\<in>set suf. isWhiteSpace c)) \<and>
   (\<forall>t\<in>set (parseWords raw).
      t \<noteq> [] \<and> comma \<notin> set t \<and> \<not> isWhiteSpace (hd t) \<and> \<not> isWhiteSpace (last t)) \<and>
   parseWords (lit ''a, b ,c,,d'') = map lit [''a'', ''b'', ''c'', ''d''] \<and>
   parseWords (lit ''cat,dog,cat'') = map lit [''cat'', ''dog'', ''cat''] \<and>
   snd (handleCreateRoom env st) =
     (if snd (validateSettings (settings st)) \<and> connected env
      then [CreateRoom \<lparr> totalPlayers = totalPlayers (settings st),
                         drawTime = drawTime (settings st),
                         totalRounds = totalRounds (settings st),
                         wordCount = wordCount (settings st),
                         hintsCount = hintsCount (settings st),
                         customWordsOnly = customWordsOnly (settings st),
                         customWords = parseWords (customWords (settings st)) \<rparr>]
      else [])"
proof -
  have a: "parseWords (lit ''a, b ,c,,d'') = map lit [''a'', ''b'', ''c'', ''d'']"
    by code_simp
  have b: "parseWords (lit ''cat,dog,cat'') = map lit [''cat'', ''dog'', ''cat'']"
    by code_simp
  show ?thesis
    using parseWords_append [of x y] parseWords_single [of w] trim_decomp [of w]
      parseWords_tokens [of _ raw] a b createRoom_payload [of env st]
    by blast
qed

text \<open>
  A padded word, the same word after a comma, and the payload for the text
  \<open>"x, y,x"\<close> in otherwise initial settings.
\<close>

theorem parseWords_spec_witness:
  "parseWords (lit '' dog '' @ comma # lit ''dog'') = [lit ''dog'', lit ''dog''] \<and>
   parseWords (lit '' dog '') = [lit ''dog''] \<and>
   snd (handleCreateRoom
          \<lparr> player = Some Player, connected = True, roomId = None,
            origin = lit ''http://localhost'' \<rparr>
          (initial_state\<lparr>settings := initial_settings\<lparr>customWords := lit ''x, y,x''\<rparr>\<rparr>)) =
     [CreateRoom \<lparr> totalPlayers = Num 6, drawTime = Num 60, totalRounds = Num 3,
                   wordCount = Num 3, hintsCount = Num 2, customWordsOnly = False,
                   customWords = [lit ''x'', lit ''y'', lit ''x''] \<rparr>]"
proof -
  define env where "env = \<lparr> player = Some Player, connected = True, roomId = None,
            origin = lit ''http://localhost'' \<rparr>"
  define st where
    "st = initial_state\<lparr>settings := initial_settings\<lparr>customWords := lit ''x, y,x''\<rparr>\<rparr>"
  note t = parseWords_spec [of "lit '' dog ''" "lit ''dog''" "lit '' dog ''"
      "lit ''dog, cat''" env st]
  have c: "comma \<notin> set (lit '' dog '')"
    by code_simp
  have tr: "trim (lit '' dog '') = lit ''dog''"
    by code_simp
  have p2: "parseWords (lit ''dog'') = [lit ''dog'']"
    by code_simp
  have p3: "parseWords (lit ''x, y,x'') = [lit ''x'', lit ''y'', lit ''x'']"
    by code_simp
  have ne: "lit ''dog'' \<noteq> []"
    by (simp add: lit_def)
  from t c have p1: "parseWords (lit '' dog '') = [lit ''dog'']"
    unfolding tr using ne by simp
  from t have "parseWords (lit '' dog '' @ comma # lit ''dog'') =
      parseWords (lit '' dog '') @ parseWords (lit ''dog'')"
    by blast
  then have q: "parseWords (lit '' dog '' @ comma # lit ''dog'') = [lit ''dog'', lit ''dog'']"
    unfolding p1 p2 by simp
  have "fst (validateSettings (settings st)) = Map.empty"
    unfolding validate_empty_iff by (simp add: st_def initial_settings_def)
  then have v: "snd (validateSettings (settings st))"
    by (simp add: validate_result)
  have "connected env"
    by (simp add: env_def)
  with t v have "snd (handleCreateRoom env st) =
      [CreateRoom \<lparr> totalPlayers = totalPlayers (settings st),
                         drawTime = drawTime (settings st),
                         totalRounds = totalRounds (settings st),
                         wordCount = wordCount (settings st),
                         hintsCount = hintsCount (settings st),
                         customWordsOnly = customWordsOnly (settings st),
                         customWords = parseWords (customWords (settings st)) \<rparr>]"
    by presburger
  then have r: "snd (handleCreateRoom env st) =
     [CreateRoom \<lparr> totalPlayers = Num 6, drawTime = Num 60, totalRounds = Num 3,
                   wordCount = Num 3, hintsCount = Num 2, customWordsOnly = False,
                   customWords = [lit ''x'', lit ''y'', lit ''x''] \<rparr>]"
    by (simp add: st_def initial_settings_def p3)
  show ?thesis
    using p1 q r unfolding env_def st_def by blast
qed

section \<open>The creation session\<close>

subsection \<open>Navigation on confirmation\<close>

lemma roomIdEffect_idle: "\<not> isCreating st \<Longrightarrow> roomIdEffect env st = (st, [])"
  by (simp add: roomIdEffect_def)

lemma observe_skip:
  "roomIdEffect env st = (st, []) \<Longrightarrow> observe (env # envs) st = observe envs st"
  by (cases "observe envs st") simp

lemma observe_idle: "\<not> isCreating st \<Longrightarrow> observe envs st = (st, [])"
proof (induction envs)
  case Nil
  show ?case by simp
next
  case (Cons env envs)
  from Cons.prems have "roomIdEffect env st = (st, [])"
    by (rule roomIdEffect_idle)
  then have "observe (env # envs) st = observe envs st"
    by (rule observe_skip)
  with Cons show ?case by simp
qed

lemma observe_fire:
  assumes "truthy (roomId env)" and "isCreating st"
  shows "observe (env # envs) st =
           (st\<lparr>isCreating := False\<rparr>, [Navigate (lit ''/room/'' @ the (roomId env))])"
proof -
  from assms have "roomIdEffect env st =
      (st\<lparr>isCreating := False\<rparr>, [Navigate (lit ''/room/'' @ the (roomId env))])"
    by (simp add: roomIdEffect_def)
  moreover have "observe envs (st\<lparr>isCreating := False\<rparr>) = (st\<lparr>isCreating := False\<rparr>, [])"
    by (rule observe_idle) simp
  ultimately show ?thesis by simp
qed

lemma observe_count:
  "length (snd (observe envs st)) =
     (if isCreating st \<and> (\<exists>env\<in>set envs. truthy (roomId env)) then 1 else 0)"
proof (induction envs)
  case Nil
  show ?case by simp
next
  case (Cons env envs)
  show ?case
  proof (cases "truthy (roomId env) \<and> isCreating st")
    case True
    then have "observe (env # envs) st =
        (st\<lparr>isCreating := False\<rparr>, [Navigate (lit ''/room/'' @ the (roomId env))])"
      by (intro observe_fire) simp_all
    then have "length (snd (observe (env # envs) st)) = 1"
      by simp
    moreover from True
    have "isCreating st \<and> (\<exists>e\<in>set (env # envs). truthy (roomId e))"
      by (simp only: list.set_intros(1) bex_simps simp_thms) (blast intro: list.set_intros)
    ultimately show ?thesis by (simp only: if_True simp_thms)
  next
    case False
    then have "roomIdEffect env st = (st, [])"
      by (simp add: roomIdEffect_def)
    then have s: "observe (env # envs) st = observe envs st"
      by (rule observe_skip)
    from False
    have c: "(isCreating st \<and> (\<exists>e\<in>set (env # envs). truthy (roomId e))) =
          (isCreating st \<and> (\<exists>e\<in>set envs. truthy (roomId e)))"
      by (metis set_ConsD list.set_intros(2))
    show ?thesis
      unfolding s c by (rule Cons.IH)
  qed
qed

lemma observe_final_idle:
  "\<exists>env\<in>set envs. truthy (roomId env) \<Longrightarrow> \<not> isCreating (fst (observe envs st))"
proof (induction envs)
  case Nil
  then show ?case by simp
next
  case (Cons env envs)
  show ?case
  proof (cases "isCreating st")
    case False
    then have "observe (env # envs) st = (st, [])"
      by (rule observe_idle)
    with False show ?thesis by (simp only: fst_conv not_False_eq_True)
  next
    case True
    show ?thesis
    proof (cases "truthy (roomId env)")
      case t: True
      from t True have "observe (env # envs) st =
        (st\<lparr>isCreating := False\<rparr>, [Navigate (lit ''/room/'' @ the (roomId env))])"
        by (rule observe_fire)
      then show ?thesis by simp
    next
      case False
      then have "roomIdEffect env st = (st, [])"
        by (simp add: roomIdEffect_def)
      then have s: "observe (env # envs) st = observe envs st"
        by (rule observe_skip)
      from False Cons.prems have "\<exists>e\<in>set envs. truthy (roomId e)"
        by (metis set_ConsD)
      then show ?thesis
        unfolding s by (rule Cons.IH)
    qed
  qed
qed

lemma truthy_iff: "truthy v = (v \<noteq> None \<and> v \<noteq> Some [])"
  by (cases v) (simp_all add: truthy_def Boolean_str_def)

lemma roomIdEffect_fires:
  "roomId env = Some rid \<Longrightarrow> rid \<noteq> [] \<Longrightarrow> isCreating st \<Longrightarrow>
   roomIdEffect env st = (st\<lparr>isCreating := False\<rparr>, [Navigate (lit ''/room/'' @ rid)])"
  by (simp add: roomIdEffect_def truthy_iff)

lemma roomIdEffect_navigates_iff:
  "(snd (roomIdEffect env st) \<noteq> []) = (roomId env \<noteq> None \<and> roomId env \<noteq> Some [] \<and> isCreating st)"
  by (simp add: roomIdEffect_def truthy_iff)

text \<open>
  Claim C1, as amended. The second effect navigates exactly when the shared \<open>roomId\<close>
  is neither null nor the empty string and \<open>isCreating\<close> is true; it then navigates to
  \<open>/room/{roomId}\<close> and resets \<open>isCreating\<close>. Over any sequence of observed
  environments the effect navigates exactly once if the session is awaiting
  confirmation and some observation carries such a \<open>roomId\<close>, and never otherwise;
  after that observation the session is idle. In particular a \<open>roomId\<close> observed
  while idle, however often, triggers nothing and changes nothing.
\<close>

theorem navigation_once:
  "(snd (roomIdEffect env st) \<noteq> []) =
     (roomId env \<noteq> None \<and> roomId env \<noteq> Some [] \<and> isCreating st) \<and>
   (roomId env = Some rid \<and> rid \<noteq> [] \<and> isCreating st \<longrightarrow>
      roomIdEffect env st =
        (st\<lparr>isCreating := False\<rparr>, [Navigate (lit ''/room/'' @ rid)])) \<and>
   length (snd (observe envs st)) =
     (if isCreating st \<and> (\<exists>e\<in>set envs. roomId e \<noteq> None \<and> roomId e \<noteq> Some [])
      then 1 else 0) \<and>
   ((\<exists>e\<in>set envs. roomId e \<noteq> None \<and> roomId e \<noteq> Some []) \<longrightarrow>
      \<not> isCreating (fst (observe envs st))) \<and>
   (\<not> isCreating st \<longrightarrow> observe envs st = (st, []))"
proof (intro conjI impI)
  show "(snd (roomIdEffect env st) \<noteq> []) =
     (roomId env \<noteq> None \<and> roomId env \<noteq> Some [] \<and> isCreating st)"
    by (rule roomIdEffect_navigates_iff)
next
  assume "roomId env = Some rid \<and> rid \<noteq> [] \<and> isCreating st"
  then show "roomIdEffect env st =
        (st\<lparr>isCreating := False\<rparr>, [Navigate (lit ''/room/'' @ rid)])"
    by (intro roomIdEffect_fires) simp_all
next
  show "length (snd (observe envs st)) =
     (if isCreating st \<and> (\<exists>e\<in>set envs. roomId e \<noteq> None \<and> roomId e \<noteq> Some [])
      then 1 else 0)"
    using observe_count [of envs st] unfolding truthy_iff .
next
  assume "\<exists>e\<in>set envs. roomId e \<noteq> None \<and> roomId e \<noteq> Some []"
  then have "\<exists>e\<in>set envs. truthy (roomId e)"
    unfolding truthy_iff .
  then show "\<not> isCreating (fst (observe envs st))"
    by (rule observe_final_idle)
next
  assume "\<not> isCreating st"
  then show "observe envs st = (st, [])"
    by (rule observe_idle)
qed

text \<open>
  The claim as stated, "exactly when \<open>roomId\<close> is non-null", fails on the empty
  string: it is not null, and the guard \<open>gameState.roomId && isCreating\<close> is false
  on it.
\<close>

theorem navigation_once_counterexample:
  "roomId \<lparr> player = Some Player, connected = True, roomId = Some [],
            origin = lit ''http://localhost'' \<rparr> \<noteq> None \<and>
   isCreating (initial_state\<lparr>isCreating := True\<rparr>) \<and>
   roomIdEffect \<lparr> player = Some Player, connected = True, roomId = Some [],
                   origin = lit ''http://localhost'' \<rparr>
       (initial_state\<lparr>isCreating := True\<rparr>) =
     (initial_state\<lparr>isCreating := True\<rparr>, [])"
  by (simp add: roomIdEffect_def truthy_iff)

text \<open>
  A session awaiting confirmation that observes null, then \<open>ABCD12\<close> three times with
  a null in between, and an idle session that observes \<open>ABCD12\<close> twice.
\<close>

theorem navigation_once_witness:
  "(let env0 = \<lparr> player = Some Player, connected = True, roomId = None,
                 origin = lit ''http://localhost'' \<rparr>;
        env1 = env0\<lparr>roomId := Some (lit ''ABCD12'')\<rparr>;
        waiting = initial_state\<lparr>isCreating := True\<rparr>
    in roomIdEffect env1 waiting = (initial_state, [Navigate (lit ''/room/ABCD12'')]) \<and>
       length (snd (observe [env0, env1, env1, env0, env1] waiting)) = 1 \<and>
       fst (observe [env0, env1, env1, env0, env1] waiting) = initial_state \<and>
       observe [env1, env1] initial_state = (initial_state, []))"
proof -
  define env0 where "env0 = \<lparr> player = Some Player, connected = True, roomId = None,
                 origin = lit ''http://localhost'' \<rparr>"
  define env1 where "env1 = env0\<lparr>roomId := Some (lit ''ABCD12'')\<rparr>"
  define waiting where "waiting = initial_state\<lparr>isCreating := True\<rparr>"
  note t = navigation_once [of env1 waiting "lit ''ABCD12''" "[env0, env1, env1, env0, env1]"]
  note u = navigation_once [of env1 initial_state "lit ''ABCD12''" "[env1, env1]"]
  have w: "isCreating waiting" "\<not> isCreating initial_state"
    by (simp_all add: waiting_def initial_state_def)
  have r: "roomId env1 = Some (lit ''ABCD12'')" "lit ''ABCD12'' \<noteq> []"
    by (simp_all add: env1_def lit_def)
  have reset: "waiting\<lparr>isCreating := False\<rparr> = initial_state"
    by (simp add: waiting_def initial_state_def)
  have path: "lit ''/room/'' @ lit ''ABCD12'' = lit ''/room/ABCD12''"
    by (simp add: lit_def)
  from t w r have a: "roomIdEffect env1 waiting =
      (initial_state, [Navigate (lit ''/room/ABCD12'')])"
    unfolding reset path by blast
  have ex: "\<exists>e\<in>set [env0, env1, env1, env0, env1]. roomId e \<noteq> None \<and> roomId e \<noteq> Some []"
    using r by simp
  from t w ex have b: "length (snd (observe [env0, env1, env1, env0, env1] waiting)) = 1"
    by presburger
  have c: "fst (observe [env0, env1, env1, env0, env1] waiting) = initial_state"
    by (simp add: roomIdEffect_def truthy_iff env0_def env1_def waiting_def
        initial_state_def lit_def)
  from u w have d: "observe [env1, env1] initial_state = (initial_state, [])"
    by blast
  show ?thesis
    unfolding Let_def env0_def [symmetric] env1_def [symmetric] waiting_def [symmetric]
    using a b c d by simp
qed

subsection \<open>Loss of the player\<close>

lemma playerEffect_absent:
  "player env = None \<Longrightarrow> playerEffect env st = (st, [Navigate (lit ''/'')])"
  by (simp add: playerEffect_def)

text \<open>
  Claim C6, as amended. When the player is absent, the first effect navigates to
  \<open>/\<close> and changes no state, so \<open>isCreating\<close> stays as it was. A pass over both
  effects then makes only that redirect as long as \<open>roomId\<close> is null or empty or the
  session is idle; with a non-empty \<open>roomId\<close> and \<open>isCreating\<close> true it also navigates
  to the room, after the redirect, and resets \<open>isCreating\<close>.
\<close>

theorem identity_lost:
  "player env = None \<Longrightarrow>
   playerEffect env st = (st, [Navigate (lit ''/'')]) \<and>
   runEffects env st =
     (if roomId env \<noteq> None \<and> roomId env \<noteq> Some [] \<and> isCreating st
      then (st\<lparr>isCreating := False\<rparr>,
            [Navigate (lit ''/''), Navigate (lit ''/room/'' @ the (roomId env))])
      else (st, [Navigate (lit ''/'')]))"
  by (simp add: runEffects_def playerEffect_def roomIdEffect_def truthy_iff)

text \<open>
  The claim as stated, "no navigation to a room occurs", fails: when the player is lost
  while awaiting confirmation and \<open>ABCD12\<close> is observed in the same pass, or by a
  later run of the second effect (the first does not run again while the player stays
  null), the page navigates to \<open>/room/ABCD12\<close>.
\<close>

theorem identity_lost_counterexample:
  "(let env0 = \<lparr> player = None, connected = True, roomId = None,
                 origin = lit ''http://localhost'' \<rparr>;
        env1 = env0\<lparr>roomId := Some (lit ''ABCD12'')\<rparr>;
        waiting = initial_state\<lparr>isCreating := True\<rparr>
    in player env1 = None \<and> isCreating waiting \<and>
       snd (runEffects env1 waiting) =
         [Navigate (lit ''/''), Navigate (lit ''/room/ABCD12'')] \<and>
       runEffects env0 waiting = (waiting, [Navigate (lit ''/'')]) \<and>
       snd (roomIdEffect env1 (fst (runEffects env0 waiting))) =
         [Navigate (lit ''/room/ABCD12'')])"
  by (simp add: runEffects_def playerEffect_def roomIdEffect_def truthy_iff lit_def)

text \<open>Player lost while awaiting confirmation, no room id yet.\<close>

theorem identity_lost_witness:
  "runEffects \<lparr> player = None, connected = True, roomId = None,
                 origin = lit ''http://localhost'' \<rparr> (initial_state\<lparr>isCreating := True\<rparr>) =
     (initial_state\<lparr>isCreating := True\<rparr>, [Navigate (lit ''/'')])"
  using identity_lost [of "\<lparr> player = None, connected = True, roomId = None,
                 origin = lit ''http://localhost'' \<rparr>" "initial_state\<lparr>isCreating := True\<rparr>"]
  by simp

subsection \<open>The create button\<close>

text \<open>
  Claim C8. The create button is disabled exactly when \<open>isCreating\<close> is true or
  \<open>connected\<close> is false. While \<open>isCreating\<close> is true (and likewise without a
  connection) a click is a no-op: no state change and no call, so no second creation
  request. The guard is the button and not the handler: what \<open>handleCreateRoom\<close>
  sends does not depend on \<open>isCreating\<close>.
\<close>

theorem create_guarded_by_button:
  "createButtonDisabled env st = (isCreating st \<or> \<not> connected env) \<and>
   (isCreating st \<longrightarrow> clickCreate env st = (st, [])) \<and>
   (\<not> connected env \<longrightarrow> clickCreate env st = (st, [])) \<and>
   snd (handleCreateRoom env (st\<lparr>isCreating := b\<rparr>)) = snd (handleCreateRoom env st)"
  by (simp add: createButtonDisabled_def clickCreate_def createRoom_payload)

text \<open>
  A session awaiting confirmation on a connected socket: the click does nothing, while
  the handler called directly would send a request.
\<close>

theorem create_guarded_by_button_witness:
  "(let env = \<lparr> player = Some Player, connected = True, roomId = None,
                origin = lit ''http://localhost'' \<rparr>;
        waiting = initial_state\<lparr>isCreating := True\<rparr>
    in createButtonDisabled env waiting \<and>
       clickCreate env waiting = (waiting, []) \<and>
       snd (handleCreateRoom env waiting) = snd (handleCreateRoom env initial_state) \<and>
       snd (handleCreateRoom env waiting) \<noteq> [])"
proof -
  define env where "env = \<lparr> player = Some Player, connected = True, roomId = None,
                origin = lit ''http://localhost'' \<rparr>"
  define waiting where "waiting = initial_state\<lparr>isCreating := True\<rparr>"
  note t = create_guarded_by_button [of env waiting True]
  note u = create_guarded_by_button [of env initial_state True]
  have w: "isCreating waiting"
    by (simp add: waiting_def)
  from t w have a: "createButtonDisabled env waiting" "clickCreate env waiting = (waiting, [])"
    by blast+
  from u have b: "snd (handleCreateRoom env waiting) = snd (handleCreateRoom env initial_state)"
    unfolding waiting_def by blast
  have "snd (validateSettings (settings initial_state))"
    by (simp add: initial_state_def validate_initial)
  then have c: "snd (handleCreateRoom env initial_state) \<noteq> []"
    by (simp add: createRoom_payload env_def)
  show ?thesis
    unfolding Let_def env_def [symmetric] waiting_def [symmetric]
    using a b c by simp
qed

section \<open>Editing a field\<close>

lemma get_set_number: "get_number g (set_number f v s) = (if g = f then v else get_number g s)"
  by (cases f; cases g) simp_all

lemma set_number_others:
  "customWordsOnly (set_number f v s) = customWordsOnly s"
  "customWords (set_number f v s) = customWords s"
  by (cases f; simp)+

lemma update_settings_stored: "get_field (name e) (update_settings e s) = stored_value e"
  by (cases e) (simp_all add: get_set_number)

lemma get_number_upd:
  "get_number g (s\<lparr>customWordsOnly := b\<rparr>) = get_number g s"
  "get_number g (s\<lparr>customWords := w\<rparr>) = get_number g s"
  by (cases g; simp)+

lemma update_settings_frame:
  "k \<noteq> name e \<Longrightarrow> get_field k (update_settings e s) = get_field k s"
  by (cases e; cases k) (simp_all add: get_set_number set_number_others get_number_upd)

lemma handleInputChange_settings:
  "settings (fst (handleInputChange e st)) = update_settings e (settings st)"
  by (simp add: handleInputChange_def Let_def)

lemma handleInputChange_errors:
  "errors (fst (handleInputChange e st)) =
     (if truthy (errors st (name e)) then (errors st)(name e := None) else errors st)"
  by (simp add: handleInputChange_def Let_def)

lemma handleInputChange_rest:
  "snd (handleInputChange e st) = []"
  "isCreating (fst (handleInputChange e st)) = isCreating st"
  "copied (fst (handleInputChange e st)) = copied st"
  "codeCopied (fst (handleInputChange e st)) = codeCopied st"
  by (simp_all add: handleInputChange_def Let_def)

lemma validate_messages: "fst (validateSettings s) k \<noteq> Some []"
  by (rule_tac k = k in fieldname_cases) (simp_all add: validate_entries lit_def)

text \<open>
  Claim C9. For every input of the form and every error mapping, an edit stores the
  new value under the input's name and leaves every other settings field as it was;
  it leaves the error entry of every other field as it was, and afterwards the edited
  field has no error: its entry is removed (an entry whose message is the empty string
  is falsy for the page and stays; \<open>validateSettings\<close> never produces one). The
  creation flag and the clipboard flags are untouched and no collaborator is called.
\<close>

theorem handleInputChange_frame:
  "get_field (name e) (settings (fst (handleInputChange e st))) = stored_value e \<and>
   (\<forall>k. k \<noteq> name e \<longrightarrow>
      get_field k (settings (fst (handleInputChange e st))) = get_field k (settings st)) \<and>
   (\<forall>k. k \<noteq> name e \<longrightarrow> errors (fst (handleInputChange e st)) k = errors st k) \<and>
   (errors st (name e) \<noteq> Some [] \<longrightarrow> errors (fst (handleInputChange e st)) (name e) = None) \<and>
   \<not> truthy (errors (fst (handleInputChange e st)) (name e)) \<and>
   (\<forall>k. fst (validateSettings s) k \<noteq> Some []) \<and>
   isCreating (fst (handleInputChange e st)) = isCreating st \<and>
   copied (fst (handleInputChange e st)) = copied st \<and>
   codeCopied (fst (handleInputChange e st)) = codeCopied st \<and>
   snd (handleInputChange e st) = []"
proof -
  have 1: "\<forall>k. k \<noteq> name e \<longrightarrow> errors (fst (handleInputChange e st)) k = errors st k"
    by (simp add: handleInputChange_errors)
  have 2: "errors st (name e) \<noteq> Some [] \<longrightarrow> errors (fst (handleInputChange e st)) (name e) = None"
    by (cases "errors st (name e)") (simp_all add: handleInputChange_errors truthy_iff)
  have 3: "\<not> truthy (errors (fst (handleInputChange e st)) (name e))"
    by (simp add: handleInputChange_errors) (simp add: truthy_iff)
  show ?thesis
    using 1 2 3
    by (simp add: handleInputChange_settings update_settings_stored update_settings_frame
        validate_messages handleInputChange_rest)
qed

text \<open>
  Two errors are shown, for players and draw time; typing 5 into the players input
  removes the first and keeps the second.
\<close>

theorem handleInputChange_frame_witness:
  "(let st = initial_state
        \<lparr> settings := initial_settings\<lparr>totalPlayers := Num 1, drawTime := Num 5\<rparr>,
          errors := [Number TotalPlayers \<mapsto> lit ''Players must be between 2 and 20'',
                     Number DrawTime \<mapsto> lit ''Draw time must be between 15 and 240 seconds''] \<rparr>;
        st' = fst (handleInputChange (NumberInput TotalPlayers (lit ''5'')) st)
    in errors st' (Number TotalPlayers) = None \<and>
       errors st' (Number DrawTime) =
         Some (lit ''Draw time must be between 15 and 240 seconds'') \<and>
       get_field (Number TotalPlayers) (settings st') = JNum (Num 5) \<and>
       get_field (Number DrawTime) (settings st') = JNum (Num 5))"
proof -
  define st where "st = initial_state
        \<lparr> settings := initial_settings\<lparr>totalPlayers := Num 1, drawTime := Num 5\<rparr>,
          errors := [Number TotalPlayers \<mapsto> lit ''Players must be between 2 and 20'',
                     Number DrawTime \<mapsto> lit ''Draw time must be between 15 and 240 seconds''] \<rparr>"
  define e where "e = NumberInput TotalPlayers (lit ''5'')"
  note t = handleInputChange_frame [of e st]
  have n: "name e = Number TotalPlayers" "Number DrawTime \<noteq> name e"
    by (simp_all add: e_def)
  have p: "stored_value e = JNum (Num 5)"
    unfolding e_def stored_value.simps by code_simp
  have m: "errors st (name e) \<noteq> Some []"
    by (simp add: st_def n lit_def)
  have d: "errors st (Number DrawTime) = Some (lit ''Draw time must be between 15 and 240 seconds'')"
    "get_field (Number DrawTime) (settings st) = JNum (Num 5)"
    by (simp_all add: st_def)
  from t m have a: "errors (fst (handleInputChange e st)) (Number TotalPlayers) = None"
    unfolding n by blast
  from t n have b: "errors (fst (handleInputChange e st)) (Number DrawTime) =
      errors st (Number DrawTime)"
    by blast
  from t have c: "get_field (Number TotalPlayers) (settings (fst (handleInputChange e st))) =
      JNum (Num 5)"
    unfolding n p by blast
  from t n have f: "get_field (Number DrawTime) (settings (fst (handleInputChange e st))) =
      get_field (Number DrawTime) (settings st)"
    by blast
  show ?thesis
    unfolding Let_def st_def [symmetric] e_def [symmetric]
    using a b c f d by simp
qed

section \<open>Clipboard timers\<close>

lemma perform_keeps:
  "\<not> cancels a \<Longrightarrow> \<exists>rest. pending (perform a t) = pending t @ rest"
  by (cases a) (simp_all add: cancels_def)

lemma performAll_keeps:
  "\<forall>a\<in>set acts. \<not> cancels a \<Longrightarrow> \<exists>rest. pending (performAll acts t) = pending t @ rest"
proof (induction acts arbitrary: t)
  case Nil
  show ?case by (simp add: performAll_def)
next
  case (Cons a acts)
  from Cons.prems have "\<not> cancels a" by simp
  then obtain r1 where r1: "pending (perform a t) = pending t @ r1"
    using perform_keeps by blast
  from Cons.prems have "\<forall>b\<in>set acts. \<not> cancels b" by simp
  then obtain r2 where "pending (performAll acts (perform a t)) = pending (perform a t) @ r2"
    using Cons.IH by blast
  with r1 have "pending (performAll (a # acts) t) = pending t @ (r1 @ r2)"
    by (simp add: performAll_def)
  then show ?case by blast
qed

lemma no_cancel_playerEffect: "\<forall>a\<in>set (snd (playerEffect env st)). \<not> cancels a"
  by (simp add: playerEffect_def cancels_def)

lemma no_cancel_roomIdEffect: "\<forall>a\<in>set (snd (roomIdEffect env st)). \<not> cancels a"
  by (simp add: roomIdEffect_def cancels_def)

lemma snd_runEffects:
  "snd (runEffects env st) =
     snd (playerEffect env st) @ snd (roomIdEffect env (fst (playerEffect env st)))"
  by (simp add: runEffects_def split: prod.splits)

lemma no_cancel_runEffects: "\<forall>a\<in>set (snd (runEffects env st)). \<not> cancels a"
  unfolding snd_runEffects using no_cancel_playerEffect no_cancel_roomIdEffect
  by (metis Un_iff set_append)

lemma no_cancel_handleInputChange: "\<forall>a\<in>set (snd (handleInputChange e st)). \<not> cancels a"
  by (simp add: handleInputChange_rest)

lemma no_cancel_handleCreateRoom: "\<forall>a\<in>set (snd (handleCreateRoom env st)). \<not> cancels a"
  by (simp add: createRoom_payload cancels_def)

lemma no_cancel_clickCreate: "\<forall>a\<in>set (snd (clickCreate env st)). \<not> cancels a"
  by (simp add: clickCreate_def createRoom_payload cancels_def)

lemma no_cancel_copyRoomLink: "\<forall>a\<in>set (snd (copyRoomLink env st)). \<not> cancels a"
  by (simp add: copyRoomLink_def cancels_def)

lemma no_cancel_copyRoomCode: "\<forall>a\<in>set (snd (copyRoomCode env st)). \<not> cancels a"
  by (simp add: copyRoomCode_def cancels_def)

lemma no_cancel_clickBack: "\<forall>a\<in>set (snd (clickBack st)). \<not> cancels a"
  by (simp add: clickBack_def cancels_def)

lemma copyRoomLink_schedules:
  "roomId env \<noteq> None \<and> roomId env \<noteq> Some [] \<Longrightarrow>
   pending (performAll (snd (copyRoomLink env st)) t) =
     pending t @ [(nextHandle t, ResetCopied, 2000)]"
  by (simp add: copyRoomLink_def truthy_iff performAll_def)

lemma copyRoomCode_schedules:
  "roomId env \<noteq> None \<and> roomId env \<noteq> Some [] \<Longrightarrow>
   pending (performAll (snd (copyRoomCode env st)) t) =
     pending t @ [(nextHandle t, ResetCodeCopied, 2000)]"
  by (simp add: copyRoomCode_def truthy_iff performAll_def)

lemma playerEffect_timers: "pending (performAll (snd (playerEffect env st)) t) = pending t"
  by (simp add: playerEffect_def performAll_def)

text \<open>
  Claim C7, as amended. A copy action with a non-empty room id schedules one timer of
  2000 ms that resets its own flag. No effect and no handler of the page makes a
  cancelling call, so whatever timers are pending before a step are still pending after
  it; the redirect on a lost player leaves the timer table exactly as it was. A timer
  that fires sets its own flag to false.
\<close>

theorem timers_never_cancelled:
  "(\<forall>step\<in>set [playerEffect env, roomIdEffect env, runEffects env, handleInputChange e,
                  handleCreateRoom env, clickCreate env, clickBack, copyRoomLink env,
                  copyRoomCode env].
      (\<forall>a\<in>set (snd (step st)). \<not> cancels a) \<and>
      (\<exists>rest. pending (performAll (snd (step st)) t) = pending t @ rest)) \<and>
   pending (performAll (snd (playerEffect env st)) t) = pending t \<and>
   (roomId env \<noteq> None \<and> roomId env \<noteq> Some [] \<longrightarrow>
      pending (performAll (snd (copyRoomLink env st)) t) =
        pending t @ [(nextHandle t, ResetCopied, 2000)] \<and>
      pending (performAll (snd (copyRoomCode env st)) t) =
        pending t @ [(nextHandle t, ResetCodeCopied, 2000)]) \<and>
   timerFired ResetCopied st = st\<lparr>copied := False\<rparr> \<and>
   timerFired ResetCodeCopied st = st\<lparr>codeCopied := False\<rparr>"
proof -
  note nc = no_cancel_playerEffect [of env st] no_cancel_roomIdEffect [of env st]
    no_cancel_runEffects [of env st] no_cancel_handleInputChange [of e st]
    no_cancel_handleCreateRoom [of env st] no_cancel_clickCreate [of env st]
    no_cancel_clickBack [of st]
    no_cancel_copyRoomLink [of env st] no_cancel_copyRoomCode [of env st]
  note keep = nc [THEN performAll_keeps, of t]
  have 1: "\<forall>step\<in>set [playerEffect env, roomIdEffect env, runEffects env, handleInputChange e,
                  handleCreateRoom env, clickCreate env, clickBack, copyRoomLink env,
                  copyRoomCode env].
      (\<forall>a\<in>set (snd (step st)). \<not> cancels a) \<and>
      (\<exists>rest. pending (performAll (snd (step st)) t) = pending t @ rest)"
    unfolding list.set ball_simps using nc keep by (intro conjI TrueI)
  have 2: "roomId env \<noteq> None \<and> roomId env \<noteq> Some [] \<longrightarrow>
      pending (performAll (snd (copyRoomLink env st)) t) =
        pending t @ [(nextHandle t, ResetCopied, 2000)] \<and>
      pending (performAll (snd (copyRoomCode env st)) t) =
        pending t @ [(nextHandle t, ResetCodeCopied, 2000)]"
    using copyRoomLink_schedules copyRoomCode_schedules by blast
  show ?thesis
    using 1 2 playerEffect_timers [of env st t] by simp
qed

text \<open>
  The claim as stated, "pending timers are cancelled on abandonment", fails: the timer
  of a link copy is still pending after the player is lost and the page has redirected.
\<close>

theorem timers_never_cancelled_counterexample:
  "(let env = \<lparr> player = Some Player, connected = True, roomId = Some (lit ''ABCD12''),
                origin = lit ''http://localhost'' \<rparr>;
        t0 = \<lparr> nextHandle = 0, pending = [] \<rparr>;
        copy = copyRoomLink env initial_state;
        t1 = performAll (snd copy) t0;
        lost = playerEffect (env\<lparr>player := None\<rparr>) (fst copy);
        t2 = performAll (snd lost) t1
    in snd lost = [Navigate (lit ''/'')] \<and>
       pending t2 = [(0, ResetCopied, 2000)])"
  by (simp add: copyRoomLink_def playerEffect_def truthy_iff performAll_def lit_def)

text \<open>A table that already holds a code-copy timer.\<close>

theorem timers_never_cancelled_witness:
  "(let env = \<lparr> player = Some Player, connected = True, roomId = Some (lit ''ABCD12''),
                origin = lit ''http://localhost'' \<rparr>;
        t0 = \<lparr> nextHandle = 7, pending = [(3, ResetCodeCopied, 2000)] \<rparr>
    in pending (performAll (snd (copyRoomLink env initial_state)) t0) =
         [(3, ResetCodeCopied, 2000), (7, ResetCopied, 2000)] \<and>
       pending (performAll (snd (playerEffect (env\<lparr>player := None\<rparr>) initial_state)) t0) =
         [(3, ResetCodeCopied, 2000)])"
proof -
  define env where "env = \<lparr> player = Some Player, connected = True,
      roomId = Some (lit ''ABCD12''), origin = lit ''http://localhost'' \<rparr>"
  define t0 where "t0 = \<lparr> nextHandle = 7, pending = [(3, ResetCodeCopied, 2000)] \<rparr>"
  note t = timers_never_cancelled [of env "NumberInput TotalPlayers []" initial_state t0]
  note u = timers_never_cancelled [of "env\<lparr>player := None\<rparr>" "NumberInput TotalPlayers []"
      initial_state t0]
  have r: "roomId env \<noteq> None \<and> roomId env \<noteq> Some []"
    by (simp add: env_def lit_def)
  from t r have a: "pending (performAll (snd (copyRoomLink env initial_state)) t0) =
      pending t0 @ [(nextHandle t0, ResetCopied, 2000)]"
    by blast
  from u have b:
    "pending (performAll (snd (playerEffect (env\<lparr>player := None\<rparr>) initial_state)) t0) =
       pending t0"
    by blast
  show ?thesis
    unfolding Let_def env_def [symmetric] t0_def [symmetric]
    using a b by (simp add: t0_def)
qed

end
